theory Spec2Isabelle
  imports Main "HOL-Library.Word" "HOL-Library.AList"
begin

unbundle bit_operations_syntax

section \<open>ZipTransformer: a streaming ZIP writer (src/zip/zip-transformer.ts)\<close>

text \<open>
  The transformer receives file entries one at a time (\<open>transform\<close>) and is finalised
  once (\<open>flush\<close>). Every chunk it hands to \<open>ctrl.enqueue\<close> is recorded, in order, in
  the field \<open>enqueued\<close> of the state.  JavaScript numbers and bigints are modelled as
  \<open>int\<close>, a \<open>Uint8Array\<close> as a list of bytes, a JavaScript string as the list of its
  UTF-16 code units.
\<close>

type_synonym byte = "8 word"
type_synonym jsstring = "16 word list"

subsection \<open>Strings: \<open>String.prototype.trim\<close>\<close>

text \<open>The code units that \<open>trim\<close> strips: ECMAScript WhiteSpace and LineTerminator.\<close>

definition is_whitespace :: "16 word \<Rightarrow> bool" where
  "is_whitespace c =
     (c \<in> set [0x0009, 0x000A, 0x000B, 0x000C, 0x000D, 0x0020, 0x00A0, 0x1680,
               0x2000, 0x2001, 0x2002, 0x2003, 0x2004, 0x2005, 0x2006, 0x2007,
               0x2008, 0x2009, 0x200A, 0x2028, 0x2029, 0x202F, 0x205F, 0x3000, 0xFEFF])"

definition trim :: "jsstring \<Rightarrow> jsstring" where
  "trim s = rev (dropWhile is_whitespace (rev (dropWhile is_whitespace s)))"

text \<open>Writes an ASCII literal as a JavaScript string.\<close>

definition js :: "string \<Rightarrow> jsstring" where
  "js s = map (\<lambda>c. of_nat (of_char c)) s"

subsection \<open>The lookup structure: a plain JavaScript object\<close>

text \<open>
  \<open>this.entries\<close> is an object literal \<open>{}\<close> used as a map from names to entries.
  Its own properties are kept here in creation order.  Three rules of the language
  matter to the archive:
  \<^item> assigning to a key that exists replaces the value and keeps the key's position;
  \<^item> assigning to the key \<open>__proto__\<close> runs the inherited setter (ECMAScript Annex B,
    present in browsers and Node): it changes the prototype and creates no own property;
  \<^item> \<open>Object.keys\<close> lists the keys that are array indices (canonical decimal numerals
    below \<open>2^32 - 1\<close>) first, in ascending numeric order, then the other keys in
    creation order.
\<close>

type_synonym 'v jsobject = "(jsstring \<times> 'v) list"

definition proto_key :: jsstring where
  "proto_key = [0x5F, 0x5F, 0x70, 0x72, 0x6F, 0x74, 0x6F, 0x5F, 0x5F]"

definition obj_set :: "jsstring \<Rightarrow> 'v \<Rightarrow> 'v jsobject \<Rightarrow> 'v jsobject" where
  "obj_set k v obj = (if k = proto_key then obj else AList.update k v obj)"

definition obj_get :: "'v jsobject \<Rightarrow> jsstring \<Rightarrow> 'v option" where
  "obj_get obj k = map_of obj k"

definition is_digit :: "16 word \<Rightarrow> bool" where
  "is_digit c = (0x30 \<le> c \<and> c \<le> 0x39)"

definition decimal :: "jsstring \<Rightarrow> int" where
  "decimal s = foldl (\<lambda>n c. 10 * n + (uint c - 48)) 0 s"

definition is_array_index :: "jsstring \<Rightarrow> bool" where
  "is_array_index k =
     (k \<noteq> [] \<and> list_all is_digit k \<and> (length k = 1 \<or> hd k \<noteq> 0x30)
      \<and> decimal k < 4294967295)"

definition Object_keys :: "'v jsobject \<Rightarrow> jsstring list" where
  "Object_keys obj =
     sort_key decimal (filter is_array_index (map fst obj))
     @ filter (\<lambda>k. \<not> is_array_index k) (map fst obj)"

subsection \<open>The binary writer\<close>

text \<open>
  Modelled from the spec: \<open>util/binary-stream.js\<close> is not among the sources.  The spec
  describes it as a writer of fixed-width integers and raw bytes that produces a byte
  buffer, all integers little-endian.  A stream is the list of the writes made on it, in
  call order; \<open>getByteArray\<close> lays them out, an integer of width \<open>w\<close> bytes as the
  \<open>w\<close> low-order bytes of its value.
\<close>

datatype write_op =
    WriteInt16 int
  | WriteInt32 int
  | WriteBigInt64 int
  | WriteBytes "byte list"

type_synonym BinaryStream = "write_op list"

fun le_bytes :: "nat \<Rightarrow> int \<Rightarrow> byte list" where
  "le_bytes 0 v = []"
| "le_bytes (Suc n) v = word_of_int v # le_bytes n (v div 256)"

fun encode :: "write_op \<Rightarrow> byte list" where
  "encode (WriteInt16 v) = le_bytes 2 v"
| "encode (WriteInt32 v) = le_bytes 4 v"
| "encode (WriteBigInt64 v) = le_bytes 8 v"
| "encode (WriteBytes bs) = bs"

definition getByteArray :: "BinaryStream \<Rightarrow> byte list" where
  "getByteArray s = concat (map encode s)"

text \<open>The value that a reader takes from a little-endian field.\<close>

definition le_value :: "byte list \<Rightarrow> int" where
  "le_value bs = foldr (\<lambda>b v. uint b + 256 * v) bs 0"

subsection \<open>Constants and external collaborators\<close>

text \<open>
  Modelled from the spec: \<open>zip/constants\<close> is not among the sources.  The spec gives the
  two thresholds: the 32-bit magic \<open>0xFFFFFFFF\<close> and the 16-bit magic \<open>0xFFFF\<close>.
\<close>

definition ZIP64_MAGIC :: int where
  "ZIP64_MAGIC = 0xFFFFFFFF"

definition ZIP64_MAGIC_SHORT :: int where
  "ZIP64_MAGIC_SHORT = 0xFFFF"

text \<open>
  The record signatures of \<open>constants\<close>, the checksum class \<open>Crc32\<close> (with an
  accumulator of type \<open>'c\<close>), \<open>getDateTimeDOS\<close> and the platform's \<open>TextEncoder\<close> are
  parameters of the model.
\<close>

record 'c env =
  SIG_LFH :: int
  SIG_DD :: int
  SIG_CFH :: int
  SIG_ZIP64_EOCD :: int
  SIG_ZIP64_EOCD_LOC :: int
  SIG_EOCD :: int
  ZIP64_EXTRA_ID :: int
  Crc32_new :: 'c
  Crc32_append :: "'c \<Rightarrow> byte list \<Rightarrow> 'c"
  Crc32_get :: "'c \<Rightarrow> int"
  getDateTimeDOS :: "int \<Rightarrow> int"
  textEncoder_encode :: "jsstring \<Rightarrow> byte list"

subsection \<open>Entries and the transformer's state\<close>

text \<open>
  \<open>IEntry\<close>, lines 8--17.  The fields \<open>offset\<close> and \<open>size\<close> are named \<open>offset_e\<close> and
  \<open>size_e\<close> here.  A date is its time value in milliseconds.  The property \<open>isZip64\<close>
  holds the same function in every entry; it is \<open>IEntry_isZip64\<close> below.
\<close>

record 'c IEntry =
  offset_e :: int
  crc :: 'c
  compressedSize :: int
  size_e :: int
  nameBuffer :: "byte list"
  date :: int
  extra :: "byte list"

definition IEntry_isZip64 :: "'c IEntry \<Rightarrow> bool" where
  "IEntry_isZip64 this =
     (compressedSize this > ZIP64_MAGIC \<or> size_e this > ZIP64_MAGIC)"

text \<open>
  The class fields, lines 20--26, and two components of the model: \<open>objects\<close>, the store
  of the entry objects allocated so far (an object's address is its index; \<open>this.entry\<close>
  and the values of \<open>this.entries\<close> are addresses, so that a write through one is seen
  through the other), and \<open>enqueued\<close>, the chunks given to \<open>ctrl.enqueue\<close> so far.
\<close>

record 'c ZipTransformer =
  forceZip64 :: bool
  entry :: "nat option"
  entries :: "nat jsobject"
  offset :: int
  centralOffset :: int
  centralSize :: int
  objects :: "'c IEntry list"
  enqueued :: "byte list list"

definition constructor :: "'c ZipTransformer" where
  "constructor =
     \<lparr>forceZip64 = False, entry = None, entries = [], offset = 0, centralOffset = 0,
      centralSize = 0, objects = [], enqueued = []\<rparr>"

definition ZipTransformer_isZip64 :: "'c ZipTransformer \<Rightarrow> bool" where
  "ZipTransformer_isZip64 this =
     (forceZip64 this
      \<or> int (length (Object_keys (entries this))) > ZIP64_MAGIC_SHORT
      \<or> centralSize this > ZIP64_MAGIC
      \<or> centralOffset this > ZIP64_MAGIC)"

text \<open>
  The conditions at lines 89, 112, 150 and 181 name the method (\<open>this.entry.isZip64\<close>,
  \<open>entry.isZip64\<close>, \<open>this.isZip64\<close>) and do not call it.  The value tested is the
  function object, and every object converts to \<open>true\<close>.
\<close>

definition ToBoolean_function :: "('a \<Rightarrow> bool) \<Rightarrow> bool" where
  "ToBoolean_function f = True"

text \<open>
  What a caller passes to \<open>transform\<close>: the name, the optional \<open>lastModified\<close>, the
  optional content (the chunks the reader of \<open>entry.stream()\<close> yields before it reports
  \<open>done\<close>), and \<open>now\<close>, what \<open>new Date()\<close> reads during the call.
\<close>

record entry_in =
  name :: jsstring
  lastModified :: "int option"
  stream :: "byte list list option"
  now :: int

subsection \<open>transform\<close>

text \<open>Lines 39--55: the new entry object, stored under its trimmed name.\<close>

definition entry_name :: "entry_in \<Rightarrow> jsstring" where
  "entry_name ent = trim (name ent)"

definition entry_date :: "entry_in \<Rightarrow> int" where
  "entry_date ent =
     (case lastModified ent of
        None \<Rightarrow> now ent
      | Some t \<Rightarrow> if t \<noteq> 0 then t else now ent)"

definition new_entry :: "'c env \<Rightarrow> entry_in \<Rightarrow> 'c ZipTransformer \<Rightarrow> 'c IEntry" where
  "new_entry env ent this =
     \<lparr>offset_e = offset this, crc = Crc32_new env, compressedSize = 0, size_e = 0,
      nameBuffer = textEncoder_encode env (entry_name ent), date = entry_date ent,
      extra = []\<rparr>"

definition define_entry :: "'c env \<Rightarrow> entry_in \<Rightarrow> 'c ZipTransformer \<Rightarrow> 'c ZipTransformer" where
  "define_entry env ent this =
     (let a = length (objects this)
      in this\<lparr>objects := objects this @ [new_entry env ent this],
              entry := Some a,
              entries := obj_set (entry_name ent) a (entries this)\<rparr>)"

text \<open>Lines 57--72: the local file header.\<close>

definition localFileHeader :: "'c env \<Rightarrow> 'c IEntry \<Rightarrow> BinaryStream" where
  "localFileHeader env e =
     [WriteInt32 (SIG_LFH env),
      WriteInt16 0x002D,
      WriteInt16 0x0808,
      WriteInt16 0x0000,
      WriteInt32 (getDateTimeDOS env (date e)),
      WriteInt32 0x00000000,
      WriteInt32 0x00000000,
      WriteInt32 0x00000000,
      WriteInt16 (int (length (nameBuffer e))),
      WriteInt16 0,
      WriteBytes (nameBuffer e),
      WriteBytes (extra e)]"

definition write_header :: "'c env \<Rightarrow> nat \<Rightarrow> 'c ZipTransformer \<Rightarrow> 'c ZipTransformer" where
  "write_header env a this =
     (let bytes = getByteArray (localFileHeader env (objects this ! a))
      in this\<lparr>enqueued := enqueued this @ [bytes],
              offset := offset this + int (length bytes)\<rparr>)"

text \<open>Lines 74--84: the content, chunk by chunk, through the object \<open>this.entry\<close>.\<close>

definition relay_chunk :: "'c env \<Rightarrow> nat \<Rightarrow> byte list \<Rightarrow> 'c ZipTransformer \<Rightarrow> 'c ZipTransformer" where
  "relay_chunk env a val this =
     (let e = objects this ! a;
          e1 = e\<lparr>crc := Crc32_append env (crc e) val\<rparr>;
          e2 = e1\<lparr>compressedSize := compressedSize e1 + int (length val)\<rparr>;
          e3 = e2\<lparr>size_e := size_e e2 + int (length val)\<rparr>
      in this\<lparr>objects := (objects this)[a := e3],
              enqueued := enqueued this @ [val]\<rparr>)"

fun relay_loop :: "'c env \<Rightarrow> nat \<Rightarrow> byte list list \<Rightarrow> 'c ZipTransformer \<Rightarrow> 'c ZipTransformer" where
  "relay_loop env a [] this = this"
| "relay_loop env a (val # rest) this = relay_loop env a rest (relay_chunk env a val this)"

definition relay :: "'c env \<Rightarrow> nat \<Rightarrow> byte list list option \<Rightarrow> 'c ZipTransformer \<Rightarrow> 'c ZipTransformer" where
  "relay env a src this =
     (case src of None \<Rightarrow> this | Some chunks \<Rightarrow> relay_loop env a chunks this)"

text \<open>Lines 86--100: the data descriptor.\<close>

definition dataDescriptor :: "'c env \<Rightarrow> 'c IEntry \<Rightarrow> BinaryStream" where
  "dataDescriptor env e =
     [WriteInt32 (SIG_DD env), WriteInt32 (Crc32_get env (crc e))]
     @ (if ToBoolean_function (IEntry_isZip64 :: 'c IEntry \<Rightarrow> bool)
        then [WriteBigInt64 (compressedSize e), WriteBigInt64 (size_e e)]
        else [WriteInt32 (compressedSize e), WriteInt32 (size_e e)])"

definition write_descriptor :: "'c env \<Rightarrow> nat \<Rightarrow> 'c ZipTransformer \<Rightarrow> 'c ZipTransformer" where
  "write_descriptor env a this =
     (let dataDescriptorByteArray = getByteArray (dataDescriptor env (objects this ! a))
      in this\<lparr>enqueued := enqueued this @ [dataDescriptorByteArray],
              offset := offset this + size_e (objects this ! a)
                        + int (length dataDescriptorByteArray)\<rparr>)"

text \<open>
  The whole call.  The address \<open>a\<close> is that of the new object, to which \<open>this.entry\<close>
  refers from line 44 to the end of the call.
\<close>

definition transform :: "'c env \<Rightarrow> entry_in \<Rightarrow> 'c ZipTransformer \<Rightarrow> 'c ZipTransformer" where
  "transform env ent this =
     (let a = length (objects this)
      in write_descriptor env a
           (relay env a (stream ent)
              (write_header env a (define_entry env ent this))))"

subsection \<open>flush\<close>

text \<open>Lines 105--147: one central-directory record for each key of \<open>this.entries\<close>.\<close>

definition createZip64ExtraField :: "'c env \<Rightarrow> 'c IEntry \<Rightarrow> BinaryStream" where
  "createZip64ExtraField env e =
     [WriteInt16 (ZIP64_EXTRA_ID env),
      WriteInt16 24,
      WriteBigInt64 (size_e e),
      WriteBigInt64 (compressedSize e),
      WriteBigInt64 (offset_e e)]"

definition centralDirectoryFileHeader ::
  "'c env \<Rightarrow> 'c IEntry \<Rightarrow> int \<Rightarrow> int \<Rightarrow> int \<Rightarrow> BinaryStream" where
  "centralDirectoryFileHeader env e compressedSize' size' fileOffset =
     [WriteInt32 (SIG_CFH env),
      WriteInt16 0x002D,
      WriteInt16 0x002D,
      WriteInt16 0x0808,
      WriteInt16 0x0000,
      WriteInt32 (getDateTimeDOS env (date e)),
      WriteInt32 (Crc32_get env (crc e)),
      WriteInt32 compressedSize',
      WriteInt32 size',
      WriteInt16 (int (length (nameBuffer e))),
      WriteInt16 (int (length (extra e))),
      WriteInt16 0x0000,
      WriteInt16 0x0000,
      WriteInt16 0x0000,
      WriteInt32 0x00000000,
      WriteInt32 fileOffset,
      WriteBytes (nameBuffer e),
      WriteBytes (extra e)]"

text \<open>
  Lines 108--124: the values for the 32-bit fields, and the entry as the branch leaves it
  (the assignment to \<open>entry.extra\<close> changes the stored object).
\<close>

definition escalate :: "'c env \<Rightarrow> 'c IEntry \<Rightarrow> (int \<times> int \<times> int) \<times> 'c IEntry" where
  "escalate env e =
     (if ToBoolean_function (IEntry_isZip64 :: 'c IEntry \<Rightarrow> bool) \<or> offset_e e > ZIP64_MAGIC
      then ((ZIP64_MAGIC, ZIP64_MAGIC, ZIP64_MAGIC),
            e\<lparr>extra := getByteArray (createZip64ExtraField env e)\<rparr>)
      else ((offset_e e, size_e e, compressedSize e), e))"

definition central_record :: "'c env \<Rightarrow> 'c IEntry \<Rightarrow> BinaryStream" where
  "central_record env e =
     (case escalate env e of
        ((fileOffset, size', compressedSize'), e') \<Rightarrow>
          centralDirectoryFileHeader env e' compressedSize' size' fileOffset)"

text \<open>
  The body of the \<open>forEach\<close>.  The name comes from \<open>Object.keys(this.entries)\<close>, so the
  lookup finds an entry; the other branch is never taken.
\<close>

definition central_step :: "'c env \<Rightarrow> jsstring \<Rightarrow> 'c ZipTransformer \<Rightarrow> 'c ZipTransformer" where
  "central_step env nm this =
     (case obj_get (entries this) nm of
        None \<Rightarrow> this
      | Some a \<Rightarrow>
          (let e = objects this ! a;
               bytes = getByteArray (central_record env e)
           in this\<lparr>objects := (objects this)[a := snd (escalate env e)],
                   enqueued := enqueued this @ [bytes],
                   offset := offset this + int (length bytes)\<rparr>))"

definition flush_central :: "'c env \<Rightarrow> 'c ZipTransformer \<Rightarrow> 'c ZipTransformer" where
  "flush_central env this =
     (let this1 = this\<lparr>centralOffset := offset this\<rparr>;
          this2 = fold (central_step env) (Object_keys (entries this1)) this1
      in this2\<lparr>centralSize := offset this2 - centralOffset this2\<rparr>)"

text \<open>Lines 150--176: the Zip64 end-of-central-directory record and its locator.\<close>

definition zip64EOCDirectoryRecord :: "'c env \<Rightarrow> 'c ZipTransformer \<Rightarrow> BinaryStream" where
  "zip64EOCDirectoryRecord env this =
     [WriteInt32 (SIG_ZIP64_EOCD env),
      WriteBigInt64 44,
      WriteInt16 0x002D,
      WriteInt16 0x002D,
      WriteInt32 0,
      WriteInt32 0,
      WriteBigInt64 (int (length (Object_keys (entries this)))),
      WriteBigInt64 (int (length (Object_keys (entries this)))),
      WriteBigInt64 (centralSize this),
      WriteBigInt64 (centralOffset this)]"

definition zip64EOCDirectoryLocator :: "'c env \<Rightarrow> 'c ZipTransformer \<Rightarrow> BinaryStream" where
  "zip64EOCDirectoryLocator env this =
     [WriteInt32 (SIG_ZIP64_EOCD_LOC env),
      WriteInt32 0,
      WriteBigInt64 (centralOffset this + centralSize this),
      WriteInt32 1]"

definition flush_zip64 :: "'c env \<Rightarrow> 'c ZipTransformer \<Rightarrow> 'c ZipTransformer" where
  "flush_zip64 env this =
     (if ToBoolean_function (ZipTransformer_isZip64 :: 'c ZipTransformer \<Rightarrow> bool)
      then
        (let rec = getByteArray (zip64EOCDirectoryRecord env this);
             this1 = this\<lparr>enqueued := enqueued this @ [rec],
                          offset := offset this + int (length rec)\<rparr>;
             loc = getByteArray (zip64EOCDirectoryLocator env this1)
         in this1\<lparr>enqueued := enqueued this1 @ [loc],
                  offset := offset this1 + int (length loc)\<rparr>)
      else this)"

text \<open>Lines 178--199: the end-of-central-directory record.\<close>

definition eocd_values :: "'c ZipTransformer \<Rightarrow> int \<times> int \<times> int" where
  "eocd_values this =
     (if ToBoolean_function (ZipTransformer_isZip64 :: 'c ZipTransformer \<Rightarrow> bool)
      then (ZIP64_MAGIC_SHORT, ZIP64_MAGIC, ZIP64_MAGIC)
      else (int (length (Object_keys (entries this))), centralSize this, centralOffset this))"

definition endOfCentralDirectoryRecord :: "'c env \<Rightarrow> 'c ZipTransformer \<Rightarrow> BinaryStream" where
  "endOfCentralDirectoryRecord env this =
     (case eocd_values this of
        (entriesSize, centralSize', centralOffset') \<Rightarrow>
          [WriteInt32 (SIG_EOCD env),
           WriteInt16 0,
           WriteInt16 0,
           WriteInt16 entriesSize,
           WriteInt16 entriesSize,
           WriteInt32 centralSize',
           WriteInt32 centralOffset',
           WriteInt16 0])"

definition flush_eocd :: "'c env \<Rightarrow> 'c ZipTransformer \<Rightarrow> 'c ZipTransformer" where
  "flush_eocd env this =
     (let bytes = getByteArray (endOfCentralDirectoryRecord env this)
      in this\<lparr>enqueued := enqueued this @ [bytes],
              offset := offset this + int (length bytes)\<rparr>)"

definition flush :: "'c env \<Rightarrow> 'c ZipTransformer \<Rightarrow> 'c ZipTransformer" where
  "flush env this = flush_eocd env (flush_zip64 env (flush_central env this))"

text \<open>A run of the stream: the entries go through \<open>transform\<close> in order.\<close>

definition transforms :: "'c env \<Rightarrow> entry_in list \<Rightarrow> 'c ZipTransformer \<Rightarrow> 'c ZipTransformer" where
  "transforms env ents this = foldl (\<lambda>s ent. transform env ent s) this ents"

subsection \<open>Observations on a run\<close>

text \<open>The chunks of an entry's content source; none when the source is absent.\<close>

definition chunks_of :: "entry_in \<Rightarrow> byte list list" where
  "chunks_of ent = (case stream ent of None \<Rightarrow> [] | Some chunks \<Rightarrow> chunks)"

text \<open>An entry object after the relay loop has gone through the given chunks.\<close>

definition absorb :: "'c env \<Rightarrow> byte list list \<Rightarrow> 'c IEntry \<Rightarrow> 'c IEntry" where
  "absorb env chunks e =
     e\<lparr>crc := foldl (Crc32_append env) (crc e) chunks,
       compressedSize := compressedSize e + int (length (concat chunks)),
       size_e := size_e e + int (length (concat chunks))\<rparr>"

text \<open>
  The entry objects that successive calls of \<open>transform\<close> create, in creation order, each
  as it is when its call returns.
\<close>

fun created :: "'c env \<Rightarrow> entry_in list \<Rightarrow> 'c ZipTransformer \<Rightarrow> 'c IEntry list" where
  "created env [] this = []"
| "created env (ent # ents) this =
     absorb env (chunks_of ent) (new_entry env ent this) # created env ents (transform env ent this)"

text \<open>
  The entry objects that the \<open>forEach\<close> of \<open>flush\<close> visits, in the order of
  \<open>Object.keys(this.entries)\<close>, and the chunks that the loop enqueues.
\<close>

definition directory_entries :: "'c ZipTransformer \<Rightarrow> 'c IEntry list" where
  "directory_entries this =
     map (\<lambda>a. objects this ! a)
       (List.map_filter (obj_get (entries this)) (Object_keys (entries this)))"

definition central_directory :: "'c env \<Rightarrow> 'c ZipTransformer \<Rightarrow> byte list list" where
  "central_directory env this =
     drop (length (enqueued this)) (enqueued (flush_central env this))"

text \<open>The number of bytes enqueued so far.\<close>

definition emitted :: "'c ZipTransformer \<Rightarrow> int" where
  "emitted this = (\<Sum>chunk\<leftarrow>enqueued this. int (length chunk))"

text \<open>
  Two states agree on the directory when they differ at most in the \<open>extra\<close> fields of
  their entry objects, in the output and in the cursor.
\<close>

definition unextra :: "'c IEntry \<Rightarrow> 'c IEntry" where
  "unextra e = e\<lparr>extra := []\<rparr>"

definition same_directory :: "'c ZipTransformer \<Rightarrow> 'c ZipTransformer \<Rightarrow> bool" where
  "same_directory s0 s =
     (entries s = entries s0 \<and> forceZip64 s = forceZip64 s0 \<and> entry s = entry s0
      \<and> centralOffset s = centralOffset s0 \<and> centralSize s = centralSize s0
      \<and> length (objects s) = length (objects s0)
      \<and> (\<forall>i. unextra (objects s ! i) = unextra (objects s0 ! i)))"

subsection \<open>A concrete environment\<close>

text \<open>
  Modelled from the spec: \<open>zip/crc32.js\<close>, \<open>zip/constants\<close> and \<open>zip/util\<close> are not among
  the sources.  For evaluating the model on concrete archives, \<open>zip_env\<close> takes the
  checksum to be what the spec names, a rolling CRC-32 (reflected polynomial
  \<open>0xEDB88320\<close>, initial value and final complement \<open>0xFFFFFFFF\<close>), the signatures to be
  those of the ZIP format (PKWARE APPNOTE), and the encoder to be UTF-8 with the
  replacement character for lone surrogates, as \<open>TextEncoder\<close> produces it.
  \<open>getDateTimeDOS\<close> renders every date as the DOS epoch (1980-01-01 00:00:00); no
  property below depends on the rendering.
\<close>

definition crc32_bit :: "int \<Rightarrow> int" where
  "crc32_bit c = (if odd c then (c div 2) XOR 0xEDB88320 else c div 2)"

definition crc32_byte :: "int \<Rightarrow> byte \<Rightarrow> int" where
  "crc32_byte c b =
     crc32_bit (crc32_bit (crc32_bit (crc32_bit
       (crc32_bit (crc32_bit (crc32_bit (crc32_bit (c XOR uint b))))))))"

definition is_high_surrogate :: "16 word \<Rightarrow> bool" where
  "is_high_surrogate c = (0xD800 \<le> c \<and> c \<le> 0xDBFF)"

definition is_low_surrogate :: "16 word \<Rightarrow> bool" where
  "is_low_surrogate c = (0xDC00 \<le> c \<and> c \<le> 0xDFFF)"

fun code_points :: "jsstring \<Rightarrow> int list" where
  "code_points [] = []"
| "code_points [c] =
     [if is_high_surrogate c \<or> is_low_surrogate c then 0xFFFD else uint c]"
| "code_points (c # d # cs) =
     (if is_high_surrogate c \<and> is_low_surrogate d
      then (0x10000 + (uint c - 0xD800) * 0x400 + (uint d - 0xDC00)) # code_points cs
      else (if is_high_surrogate c \<or> is_low_surrogate c then 0xFFFD else uint c)
           # code_points (d # cs))"

definition utf8 :: "int \<Rightarrow> byte list" where
  "utf8 n =
     (if n < 0x80 then [word_of_int n]
      else if n < 0x800 then
        [word_of_int (0xC0 + n div 0x40), word_of_int (0x80 + n mod 0x40)]
      else if n < 0x10000 then
        [word_of_int (0xE0 + n div 0x1000), word_of_int (0x80 + n div 0x40 mod 0x40),
         word_of_int (0x80 + n mod 0x40)]
      else
        [word_of_int (0xF0 + n div 0x40000), word_of_int (0x80 + n div 0x1000 mod 0x40),
         word_of_int (0x80 + n div 0x40 mod 0x40), word_of_int (0x80 + n mod 0x40)])"

definition zip_env :: "int env" where
  "zip_env =
     \<lparr>SIG_LFH = 0x04034b50, SIG_DD = 0x08074b50, SIG_CFH = 0x02014b50,
      SIG_ZIP64_EOCD = 0x06064b50, SIG_ZIP64_EOCD_LOC = 0x07064b50, SIG_EOCD = 0x06054b50,
      ZIP64_EXTRA_ID = 0x0001,
      Crc32_new = 0xFFFFFFFF,
      Crc32_append = foldl crc32_byte,
      Crc32_get = (\<lambda>c. c XOR 0xFFFFFFFF),
      getDateTimeDOS = (\<lambda>d. 0x00210000),
      textEncoder_encode = (\<lambda>s. concat (map utf8 (code_points s)))\<rparr>"

text \<open>
  The entry of the spec's scenario, named \<open>x.txt\<close> with the two bytes \<open>AB\<close> as content
  in one chunk, and entries without content for a given name.
\<close>

definition x_txt :: entry_in where
  "x_txt = \<lparr>name = js ''x.txt'', lastModified = None, stream = Some [[0x41, 0x42]], now = 0\<rparr>"

definition named :: "string \<Rightarrow> entry_in" where
  "named n = \<lparr>name = js n, lastModified = None, stream = None, now = 0\<rparr>"

text \<open>An entry object of 4 GiB of content, and a state whose directory holds it.\<close>

definition big_entry :: "int IEntry" where
  "big_entry =
     \<lparr>offset_e = 0, crc = 0, compressedSize = 0x100000000, size_e = 0x100000000,
      nameBuffer = [0x61], date = 0, extra = []\<rparr>"

definition big_state :: "int ZipTransformer" where
  "big_state =
     \<lparr>forceZip64 = False, entry = Some 0, entries = [(js ''a'', 0)],
      offset = 0x100000037, centralOffset = 0, centralSize = 0,
      objects = [big_entry], enqueued = []\<rparr>"

section \<open>Properties\<close>

subsection \<open>Auxiliary facts\<close>

lemma length_le_bytes [simp]: "length (le_bytes n v) = n"
  by (induction n arbitrary: v) simp_all

lemma le_bytes_numeral:
  "le_bytes (numeral k) v = word_of_int v # le_bytes (pred_numeral k) (v div 256)"
  by (simp add: numeral_eq_Suc)

lemma le_value_le_bytes: "le_value (le_bytes n v) = v mod 256 ^ n"
proof (induction n arbitrary: v)
  case 0
  show ?case by (simp add: le_value_def)
next
  case (Suc n)
  have "le_value (le_bytes (Suc n) v)
      = uint (word_of_int v :: byte) + 256 * le_value (le_bytes n (v div 256))"
    by (simp add: le_value_def)
  also have "\<dots> = v mod 256 + 256 * (v div 256 mod 256 ^ n)"
    by (simp add: Suc.IH uint_word_of_int take_bit_eq_mod)
  also have "\<dots> = v mod 256 ^ Suc n"
    using zmod_zmult2_eq [of "256 ^ n" v 256] by simp
  finally show ?case .
qed

lemma le_value_le_bytes_exact:
  "0 \<le> v \<Longrightarrow> v < 256 ^ n \<Longrightarrow> le_value (le_bytes n v) = v"
  by (simp add: le_value_le_bytes)

lemma absorb_Nil [simp]: "absorb env [] e = e"
  by (simp add: absorb_def)

lemma absorb_Cons:
  "absorb env (c # cs) e =
     absorb env cs (e\<lparr>crc := Crc32_append env (crc e) c,
                      compressedSize := compressedSize e + int (length c),
                      size_e := size_e e + int (length c)\<rparr>)"
  by (simp add: absorb_def)

lemma relay_loop_closed:
  "relay_loop env a chunks this =
     this\<lparr>objects := (objects this)[a := absorb env chunks (objects this ! a)],
          enqueued := enqueued this @ chunks\<rparr>"
proof (induction chunks arbitrary: this)
  case Nil
  show ?case by simp
next
  case (Cons c cs)
  show ?case
  proof (cases "a < length (objects this)")
    case True
    then show ?thesis
      by (simp add: Cons.IH relay_chunk_def Let_def absorb_Cons)
  next
    case False
    then show ?thesis
      by (simp add: Cons.IH relay_chunk_def Let_def list_update_beyond)
  qed
qed

lemma relay_closed:
  "relay env a (stream ent) this =
     this\<lparr>objects := (objects this)[a := absorb env (chunks_of ent) (objects this ! a)],
          enqueued := enqueued this @ chunks_of ent\<rparr>"
  by (simp add: relay_def chunks_of_def relay_loop_closed split: option.split)

lemma transform_closed:
  "transform env ent this =
     this\<lparr>objects := objects this @ [absorb env (chunks_of ent) (new_entry env ent this)],
          entry := Some (length (objects this)),
          entries := obj_set (entry_name ent) (length (objects this)) (entries this),
          enqueued := enqueued this
             @ [getByteArray (localFileHeader env (new_entry env ent this))]
             @ chunks_of ent
             @ [getByteArray (dataDescriptor env (absorb env (chunks_of ent) (new_entry env ent this)))],
          offset := offset this
             + int (length (getByteArray (localFileHeader env (new_entry env ent this))))
             + int (length (concat (chunks_of ent)))
             + int (length (getByteArray (dataDescriptor env (absorb env (chunks_of ent) (new_entry env ent this)))))\<rparr>"
  by (simp add: transform_def relay_closed write_descriptor_def write_header_def define_entry_def
      Let_def absorb_def new_entry_def)

lemma central_record_unextra: "central_record env (unextra e) = central_record env e"
  by (simp add: central_record_def escalate_def ToBoolean_function_def unextra_def
      centralDirectoryFileHeader_def createZip64ExtraField_def)

lemma snd_escalate_unextra: "unextra (snd (escalate env e)) = unextra e"
  by (simp add: escalate_def unextra_def)

lemma central_record_same:
  "unextra e = unextra e' \<Longrightarrow> central_record env e = central_record env e'"
  by (metis central_record_unextra)

lemma set_Object_keys: "set (Object_keys obj) = fst ` set obj"
  by (auto simp: Object_keys_def)

lemma same_directory_refl: "same_directory s s"
  by (simp add: same_directory_def)

lemma central_step_Some:
  assumes "obj_get (entries s) k = Some a" and "same_directory s0 s"
  shows "same_directory s0 (central_step env k s)"
    and "enqueued (central_step env k s) =
           enqueued s @ [getByteArray (central_record env (objects s0 ! a))]"
    and "offset (central_step env k s) =
           offset s + int (length (getByteArray (central_record env (objects s0 ! a))))"
proof -
  have u: "unextra (objects s ! a) = unextra (objects s0 ! a)"
    using assms(2) by (simp add: same_directory_def)
  have r: "central_record env (objects s ! a) = central_record env (objects s0 ! a)"
    by (rule central_record_same [OF u])
  have n: "unextra ((objects s)[a := snd (escalate env (objects s ! a))] ! i)
             = unextra (objects s ! i)" for i
  proof (cases "a < length (objects s) \<and> i = a")
    case True
    then show ?thesis by (simp add: snd_escalate_unextra)
  next
    case False
    then show ?thesis
      by (cases "a < length (objects s)") (auto simp: list_update_beyond)
  qed
  show "same_directory s0 (central_step env k s)"
    using assms n by (simp add: same_directory_def central_step_def Let_def)
  show "enqueued (central_step env k s) =
           enqueued s @ [getByteArray (central_record env (objects s0 ! a))]"
    using assms(1) r by (simp add: central_step_def Let_def)
  show "offset (central_step env k s) =
           offset s + int (length (getByteArray (central_record env (objects s0 ! a))))"
    using assms(1) r by (simp add: central_step_def Let_def)
qed

lemma fold_central_step:
  assumes "set ks \<subseteq> fst ` set (entries s0)" and "same_directory s0 s"
  shows "same_directory s0 (fold (central_step env) ks s)
       \<and> enqueued (fold (central_step env) ks s) =
           enqueued s @ map (\<lambda>a. getByteArray (central_record env (objects s0 ! a)))
                          (List.map_filter (obj_get (entries s0)) ks)
       \<and> offset (fold (central_step env) ks s) =
           offset s + (\<Sum>a\<leftarrow>List.map_filter (obj_get (entries s0)) ks.
                         int (length (getByteArray (central_record env (objects s0 ! a)))))"
  using assms
proof (induction ks arbitrary: s)
  case Nil
  then show ?case by simp
next
  case (Cons k ks)
  from Cons.prems(1) have "k \<in> fst ` set (entries s0)" by simp
  then obtain a where a: "obj_get (entries s0) k = Some a"
    by (metis obj_get_def domD dom_map_of_conv_image_fst)
  have a': "obj_get (entries s) k = Some a"
    using a Cons.prems(2) by (simp add: same_directory_def)
  note st = central_step_Some [OF a' Cons.prems(2), of env]
  from Cons.prems(1) have sub: "set ks \<subseteq> fst ` set (entries s0)" by simp
  show ?case
    using Cons.IH [OF sub st(1)] st(2,3) a
    by simp
qed

lemma flush_central_facts:
  "enqueued (flush_central env this) =
     enqueued this @ map (\<lambda>e. getByteArray (central_record env e)) (directory_entries this)"
  "offset (flush_central env this) =
     offset this + (\<Sum>e\<leftarrow>directory_entries this. int (length (getByteArray (central_record env e))))"
  "centralOffset (flush_central env this) = offset this"
  "centralSize (flush_central env this) = offset (flush_central env this) - offset this"
  "entries (flush_central env this) = entries this"
  "forceZip64 (flush_central env this) = forceZip64 this"
proof -
  let ?s = "this\<lparr>centralOffset := offset this\<rparr>"
  have sub: "set (Object_keys (entries ?s)) \<subseteq> fst ` set (entries ?s)"
    by (simp add: set_Object_keys)
  note f = fold_central_step [OF sub same_directory_refl, of env]
  have sd: "same_directory ?s (fold (central_step env) (Object_keys (entries ?s)) ?s)"
    using f by simp
  show "enqueued (flush_central env this) =
     enqueued this @ map (\<lambda>e. getByteArray (central_record env e)) (directory_entries this)"
    using f by (simp add: flush_central_def Let_def directory_entries_def comp_def)
  show o: "offset (flush_central env this) =
     offset this + (\<Sum>e\<leftarrow>directory_entries this. int (length (getByteArray (central_record env e))))"
    using f by (simp add: flush_central_def Let_def directory_entries_def comp_def)
  show "centralOffset (flush_central env this) = offset this"
    using sd by (simp add: flush_central_def Let_def same_directory_def)
  show "centralSize (flush_central env this) = offset (flush_central env this) - offset this"
    using sd by (simp add: flush_central_def Let_def same_directory_def)
  show "entries (flush_central env this) = entries this"
    using sd by (simp add: flush_central_def Let_def same_directory_def)
  show "forceZip64 (flush_central env this) = forceZip64 this"
    using sd by (simp add: flush_central_def Let_def same_directory_def)
qed

lemma central_directory_records:
  "central_directory env this =
     map (\<lambda>e. getByteArray (central_record env e)) (directory_entries this)"
  by (simp add: central_directory_def flush_central_facts(1))

lemma flush_zip64_facts:
  "enqueued (flush_zip64 env this) =
     enqueued this @ [getByteArray (zip64EOCDirectoryRecord env this),
                      getByteArray (zip64EOCDirectoryLocator env this)]"
  "offset (flush_zip64 env this) =
     offset this + int (length (getByteArray (zip64EOCDirectoryRecord env this)))
       + int (length (getByteArray (zip64EOCDirectoryLocator env this)))"
  "entries (flush_zip64 env this) = entries this"
  "centralOffset (flush_zip64 env this) = centralOffset this"
  "centralSize (flush_zip64 env this) = centralSize this"
  by (simp_all add: flush_zip64_def ToBoolean_function_def Let_def zip64EOCDirectoryLocator_def)

lemma flush_eocd_facts:
  "enqueued (flush_eocd env this) =
     enqueued this @ [getByteArray (endOfCentralDirectoryRecord env this)]"
  "offset (flush_eocd env this) =
     offset this + int (length (getByteArray (endOfCentralDirectoryRecord env this)))"
  "entries (flush_eocd env this) = entries this"
  "centralOffset (flush_eocd env this) = centralOffset this"
  "centralSize (flush_eocd env this) = centralSize this"
  by (simp_all add: flush_eocd_def Let_def)

lemma emitted_append: "enqueued s' = enqueued s @ cs \<Longrightarrow>
    emitted s' = emitted s + (\<Sum>c\<leftarrow>cs. int (length c))"
  by (simp add: emitted_def)

lemma sum_lengths_concat: "(\<Sum>c\<leftarrow>cs. int (length c)) = int (length (concat cs))"
  by (induction cs) simp_all

lemma transform_balance:
  "offset (transform env ent this) - emitted (transform env ent this) = offset this - emitted this"
  by (simp add: transform_closed emitted_def sum_lengths_concat)

lemma flush_central_balance:
  "offset (flush_central env this) - emitted (flush_central env this) = offset this - emitted this"
  by (simp add: emitted_append [OF flush_central_facts(1)] flush_central_facts(2) comp_def)

lemma flush_balance:
  "offset (flush env this) - emitted (flush env this) = offset this - emitted this"
proof -
  have "offset (flush env this) - emitted (flush env this)
      = offset (flush_central env this) - emitted (flush_central env this)"
    by (simp add: flush_def emitted_append [OF flush_eocd_facts(1)] flush_eocd_facts(2)
        emitted_append [OF flush_zip64_facts(1)] flush_zip64_facts(2))
  then show ?thesis by (simp add: flush_central_balance)
qed

lemma transforms_Nil [simp]: "transforms env [] this = this"
  by (simp add: transforms_def)

lemma transforms_Cons [simp]:
  "transforms env (ent # ents) this = transforms env ents (transform env ent this)"
  by (simp add: transforms_def)

lemma transforms_append:
  "transforms env (xs @ ys) this = transforms env ys (transforms env xs this)"
  by (simp add: transforms_def)

lemma transforms_balance:
  "offset (transforms env ents this) - emitted (transforms env ents this) = offset this - emitted this"
  by (induction ents arbitrary: this) (simp_all add: transform_balance)

lemma transform_mono: "offset this \<le> offset (transform env ent this)"
  by (simp add: transform_closed)

lemma flush_mono: "offset this \<le> offset (flush env this)"
proof -
  have "0 \<le> (\<Sum>e\<leftarrow>directory_entries this. int (length (getByteArray (central_record env e))))"
    by (rule sum_list_nonneg) auto
  then show ?thesis
    by (simp add: flush_def flush_eocd_facts(2) flush_zip64_facts(2) flush_central_facts(2))
qed

lemma objects_transform:
  "objects (transform env ent this) =
     objects this @ [absorb env (chunks_of ent) (new_entry env ent this)]"
  by (simp add: transform_closed)

lemma entries_transform:
  "entries (transform env ent this) =
     obj_set (entry_name ent) (length (objects this)) (entries this)"
  by (simp add: transform_closed)

lemma enqueued_transform:
  "enqueued (transform env ent this) =
     enqueued this
     @ [getByteArray (localFileHeader env (new_entry env ent this))]
     @ chunks_of ent
     @ [getByteArray (dataDescriptor env (absorb env (chunks_of ent) (new_entry env ent this)))]"
  by (simp add: transform_closed)

lemma length_created [simp]: "length (created env ents this) = length ents"
  by (induction ents arbitrary: this) simp_all

lemma objects_transforms:
  "objects (transforms env ents this) = objects this @ created env ents this"
  by (induction ents arbitrary: this) (simp_all add: objects_transform)

lemma enqueued_transforms_grows:
  "\<exists>rest. enqueued (transforms env ents this) = enqueued this @ rest"
proof (induction ents arbitrary: this)
  case Nil
  show ?case by simp
next
  case (Cons ent ents)
  from Cons.IH [of "transform env ent this"] obtain rest where
    "enqueued (transforms env ents (transform env ent this)) =
       enqueued (transform env ent this) @ rest" by blast
  then show ?case by (simp add: enqueued_transform)
qed

lemma enqueued_flush:
  "enqueued (flush env this) =
     enqueued this @ central_directory env this
     @ [getByteArray (zip64EOCDirectoryRecord env (flush_central env this)),
        getByteArray (zip64EOCDirectoryLocator env (flush_central env this)),
        getByteArray (endOfCentralDirectoryRecord env (flush_zip64 env (flush_central env this)))]"
  by (simp add: flush_def flush_eocd_facts(1) flush_zip64_facts(1) flush_central_facts(1)
      central_directory_records)

lemma update_fresh: "k \<notin> fst ` set al \<Longrightarrow> AList.update k v al = al @ [(k, v)]"
  by (induction al) auto

lemma entries_transforms_fresh:
  assumes "distinct (map entry_name ents)"
    and "\<forall>ent\<in>set ents. entry_name ent \<noteq> proto_key"
    and "entry_name ` set ents \<inter> fst ` set (entries this) = {}"
  shows "entries (transforms env ents this) =
           entries this @ zip (map entry_name ents)
                              [length (objects this)..<length (objects this) + length ents]"
  using assms
proof (induction ents rule: rev_induct)
  case Nil
  show ?case by simp
next
  case (snoc ent ents)
  let ?n = "entry_name ent" and ?s = "transforms env ents this"
  have ih: "entries ?s = entries this @ zip (map entry_name ents)
                              [length (objects this)..<length (objects this) + length ents]"
    using snoc by auto
  have l: "length (objects ?s) = length (objects this) + length ents"
    by (simp add: objects_transforms)
  have "fst ` set (entries ?s) \<subseteq> fst ` set (entries this) \<union> entry_name ` set ents"
    by (auto simp: ih dest!: set_zip_leftD)
  then have fresh: "?n \<notin> fst ` set (entries ?s)"
    using snoc.prems by auto
  have np: "?n \<noteq> proto_key"
    using snoc.prems by simp
  have "entries (transform env ent ?s) = entries ?s @ [(?n, length (objects ?s))]"
    by (simp add: entries_transform obj_set_def np update_fresh [OF fresh])
  then show ?case
    by (simp add: transforms_append ih l)
qed

lemma map_filter_Some: "map f xs = map Some ys \<Longrightarrow> List.map_filter f xs = ys"
  by (induction xs arbitrary: ys) auto

lemma map_filter_zip:
  assumes "distinct xs" and "length xs = length ys"
  shows "List.map_filter (map_of (zip xs ys)) xs = ys"
proof (rule map_filter_Some, rule nth_equalityI)
  show "length (map (map_of (zip xs ys)) xs) = length (map Some ys)"
    using assms by simp
  fix i assume "i < length (map (map_of (zip xs ys)) xs)"
  then show "map (map_of (zip xs ys)) xs ! i = map Some ys ! i"
    using assms by (simp add: map_of_zip_nth)
qed

lemma Object_keys_plain:
  "\<forall>k\<in>fst ` set obj. \<not> is_array_index k \<Longrightarrow> Object_keys obj = map fst obj"
proof -
  assume a: "\<forall>k\<in>fst ` set obj. \<not> is_array_index k"
  then have "filter is_array_index (map fst obj) = []"
    by (auto simp: filter_empty_conv)
  moreover from a have "filter (\<lambda>k. \<not> is_array_index k) (map fst obj) = map fst obj"
    by (auto simp: filter_id_conv)
  ultimately show ?thesis by (simp add: Object_keys_def)
qed

lemma directory_in_creation_order:
  assumes "distinct (map entry_name ents)"
    and "\<forall>ent\<in>set ents. entry_name ent \<noteq> proto_key \<and> \<not> is_array_index (entry_name ent)"
  shows "directory_entries (transforms env ents constructor) = created env ents constructor"
proof -
  let ?s = "transforms env ents constructor"
  let ?names = "map entry_name ents"
  have e: "entries ?s = zip ?names [0..<length ents]"
    using entries_transforms_fresh [of ents constructor env] assms
    by (simp add: constructor_def)
  have o: "objects ?s = created env ents constructor"
    by (simp add: objects_transforms constructor_def)
  have k: "Object_keys (entries ?s) = ?names"
  proof -
    have "\<forall>k\<in>fst ` set (entries ?s). \<not> is_array_index k"
      using assms(2) by (auto simp: e dest!: set_zip_leftD)
    then show ?thesis by (simp add: Object_keys_plain e)
  qed
  have "List.map_filter (obj_get (entries ?s)) (Object_keys (entries ?s)) = [0..<length ents]"
    unfolding k
    using map_filter_zip [of ?names "[0..<length ents]"] assms(1)
    by (simp add: e obj_get_def [abs_def])
  then have "directory_entries ?s = map (\<lambda>a. objects ?s ! a) [0..<length (objects ?s)]"
    by (simp add: directory_entries_def o)
  then show ?thesis using map_nth [of "created env ents constructor"] by (simp add: o)
qed

lemma distinct_keys_transforms:
  "distinct (map fst (entries this)) \<Longrightarrow> distinct (map fst (entries (transforms env ents this)))"
  by (induction ents arbitrary: this)
     (simp_all add: entries_transform obj_set_def distinct_update)

lemma keys_transforms:
  "fst ` set (entries (transforms env ents this)) =
     fst ` set (entries this) \<union> (entry_name ` set ents - {proto_key})"
  by (induction ents arbitrary: this)
     (auto simp: entries_transform obj_set_def dom_update)

lemma lookup_transform:
  "n \<noteq> proto_key \<Longrightarrow>
   obj_get (entries (transform env ent this)) n =
     (if entry_name ent = n then Some (length (objects this)) else obj_get (entries this) n)"
  by (auto simp: entries_transform obj_set_def obj_get_def update_conv')

lemma lookup_transforms_other:
  "n \<notin> entry_name ` set ents \<Longrightarrow> n \<noteq> proto_key \<Longrightarrow>
   obj_get (entries (transforms env ents this)) n = obj_get (entries this) n"
  by (induction ents arbitrary: this) (auto simp: lookup_transform)

lemma length_Object_keys: "length (Object_keys obj) = length obj"
  using sum_length_filter_compl [of is_array_index "map fst obj"]
  by (simp add: Object_keys_def)

lemma distinct_Object_keys: "distinct (map fst obj) \<Longrightarrow> distinct (Object_keys obj)"
  by (auto simp: Object_keys_def)

lemma filter_eq_single: "distinct xs \<Longrightarrow> x \<in> set xs \<Longrightarrow> filter (\<lambda>k. k = x) xs = [x]"
  by (induction xs) (auto simp: filter_empty_conv)

lemma key_count:
  "length (Object_keys (entries (transforms env ents constructor))) =
     card (entry_name ` set ents - {proto_key})"
proof -
  let ?s = "transforms env ents constructor"
  have d: "distinct (map fst (entries ?s))"
    by (rule distinct_keys_transforms) (simp add: constructor_def)
  have "length (Object_keys (entries ?s)) = length (map fst (entries ?s))"
    by (simp add: length_Object_keys)
  also have "\<dots> = card (set (map fst (entries ?s)))"
    using d by (simp only: distinct_card)
  also have "\<dots> = card (entry_name ` set ents - {proto_key})"
    by (simp add: keys_transforms constructor_def)
  finally show ?thesis .
qed

subsection \<open>Lengths and fields of the records\<close>

lemmas run_simps =
  transform_closed constructor_def obj_set_def obj_get_def entry_name_def named_def x_txt_def
  trim_def js_def is_whitespace_def proto_key_def chunks_of_def absorb_def new_entry_def
  entry_date_def

lemmas keys_simps =
  directory_entries_def Object_keys_def is_array_index_def is_digit_def decimal_def

lemma length_getByteArray:
  "length (getByteArray (WriteInt16 v # s)) = 2 + length (getByteArray s)"
  "length (getByteArray (WriteInt32 v # s)) = 4 + length (getByteArray s)"
  "length (getByteArray (WriteBigInt64 v # s)) = 8 + length (getByteArray s)"
  "length (getByteArray (WriteBytes bs # s)) = length bs + length (getByteArray s)"
  "length (getByteArray []) = 0"
  by (simp_all add: getByteArray_def)

lemma length_localFileHeader:
  "length (getByteArray (localFileHeader env e)) = 30 + length (nameBuffer e) + length (extra e)"
  by (simp add: localFileHeader_def length_getByteArray)

lemma dataDescriptor_fields:
  "dataDescriptor env e =
     [WriteInt32 (SIG_DD env), WriteInt32 (Crc32_get env (crc e)),
      WriteBigInt64 (compressedSize e), WriteBigInt64 (size_e e)]"
  by (simp add: dataDescriptor_def ToBoolean_function_def)

lemma length_dataDescriptor: "length (getByteArray (dataDescriptor env e)) = 24"
  by (simp add: dataDescriptor_fields length_getByteArray)

lemma escalate_always:
  "escalate env e =
     ((ZIP64_MAGIC, ZIP64_MAGIC, ZIP64_MAGIC),
      e\<lparr>extra := getByteArray (createZip64ExtraField env e)\<rparr>)"
  by (simp add: escalate_def ToBoolean_function_def)

lemma length_createZip64ExtraField: "length (getByteArray (createZip64ExtraField env e)) = 28"
  by (simp add: createZip64ExtraField_def length_getByteArray)

lemma central_record_fields:
  "central_record env e =
     [WriteInt32 (SIG_CFH env), WriteInt16 0x002D, WriteInt16 0x002D, WriteInt16 0x0808,
      WriteInt16 0x0000, WriteInt32 (getDateTimeDOS env (date e)),
      WriteInt32 (Crc32_get env (crc e)),
      WriteInt32 0xFFFFFFFF, WriteInt32 0xFFFFFFFF,
      WriteInt16 (int (length (nameBuffer e))), WriteInt16 28,
      WriteInt16 0x0000, WriteInt16 0x0000, WriteInt16 0x0000, WriteInt32 0x00000000,
      WriteInt32 0xFFFFFFFF,
      WriteBytes (nameBuffer e),
      WriteBytes (getByteArray (createZip64ExtraField env e))]"
  by (simp add: central_record_def escalate_always centralDirectoryFileHeader_def
      ZIP64_MAGIC_def length_createZip64ExtraField)

lemma length_central_record:
  "length (getByteArray (central_record env e)) = 74 + length (nameBuffer e)"
  by (simp add: central_record_fields length_getByteArray length_createZip64ExtraField)

lemma eocd_fields:
  "endOfCentralDirectoryRecord env this =
     [WriteInt32 (SIG_EOCD env), WriteInt16 0, WriteInt16 0, WriteInt16 0xFFFF,
      WriteInt16 0xFFFF, WriteInt32 0xFFFFFFFF, WriteInt32 0xFFFFFFFF, WriteInt16 0]"
  by (simp add: endOfCentralDirectoryRecord_def eocd_values_def ToBoolean_function_def
      ZIP64_MAGIC_def ZIP64_MAGIC_SHORT_def)

subsection \<open>The scenario of one small entry\<close>

lemma crc32_check_value:
  "Crc32_get zip_env (Crc32_append zip_env (Crc32_new zip_env)
     [0x31, 0x32, 0x33, 0x34, 0x35, 0x36, 0x37, 0x38, 0x39]) = 0xCBF43926"
  by (simp add: zip_env_def crc32_byte_def crc32_bit_def)

lemma x_name: "entry_name x_txt = js ''x.txt''"
  by (simp add: entry_name_def x_txt_def trim_def js_def is_whitespace_def)

lemma x_encoded: "textEncoder_encode zip_env (js ''x.txt'') = [0x78, 0x2E, 0x74, 0x78, 0x74]"
  by (simp add: zip_env_def utf8_def is_high_surrogate_def is_low_surrogate_def js_def)

lemma x_accumulator:
  "Crc32_append zip_env (Crc32_new zip_env) [0x41, 0x42] = 0xCF96B3F8"
  by (simp add: zip_env_def crc32_byte_def crc32_bit_def)

lemma x_crc: "Crc32_get zip_env 0xCF96B3F8 = 0x30694C07"
  by (simp add: zip_env_def)

lemma x_object:
  "absorb zip_env (chunks_of x_txt) (new_entry zip_env x_txt constructor) =
     \<lparr>offset_e = 0, crc = 0xCF96B3F8,
      compressedSize = 2, size_e = 2,
      nameBuffer = [0x78, 0x2E, 0x74, 0x78, 0x74], date = 0, extra = []\<rparr>"
proof -
  have c: "chunks_of x_txt = [[0x41, 0x42]]"
    by (simp add: chunks_of_def x_txt_def)
  show ?thesis
    unfolding absorb_def new_entry_def x_name x_encoded c
    by (simp add: x_accumulator) (simp add: x_txt_def constructor_def entry_date_def)
qed

lemma x_objects:
  "objects (transform zip_env x_txt constructor) =
     [\<lparr>offset_e = 0, crc = 0xCF96B3F8,
       compressedSize = 2, size_e = 2,
       nameBuffer = [0x78, 0x2E, 0x74, 0x78, 0x74], date = 0, extra = []\<rparr>]"
  by (simp add: objects_transform x_object) (simp add: constructor_def)

lemma x_entries: "entries (transform zip_env x_txt constructor) = [(js ''x.txt'', 0)]"
  by (simp add: entries_transform x_name)
     (simp add: obj_set_def proto_key_def js_def constructor_def)

lemma x_offset: "offset (transform zip_env x_txt constructor) = 61"
  unfolding transform_closed length_localFileHeader length_dataDescriptor new_entry_def
    x_name x_encoded
  by (simp add: chunks_of_def x_txt_def constructor_def)

lemma x_directory:
  "directory_entries (transform zip_env x_txt constructor) =
     [\<lparr>offset_e = 0, crc = 0xCF96B3F8,
       compressedSize = 2, size_e = 2,
       nameBuffer = [0x78, 0x2E, 0x74, 0x78, 0x74], date = 0, extra = []\<rparr>]"
  unfolding directory_entries_def x_entries x_objects
  by (simp add: Object_keys_def is_array_index_def is_digit_def js_def obj_get_def)

lemma x_central:
  "entries (flush_central zip_env (transform zip_env x_txt constructor)) = [(js ''x.txt'', 0)]"
  "forceZip64 (flush_central zip_env (transform zip_env x_txt constructor)) = False"
  "centralOffset (flush_central zip_env (transform zip_env x_txt constructor)) = 61"
  "centralSize (flush_central zip_env (transform zip_env x_txt constructor)) = 79"
  unfolding flush_central_facts x_directory x_entries x_offset
  by (simp_all add: length_central_record) (simp add: transform_closed constructor_def)

lemma zip64_extra_bytes:
  "getByteArray (createZip64ExtraField env e) =
     le_bytes 2 (ZIP64_EXTRA_ID env) @ le_bytes 2 24 @ le_bytes 8 (size_e e)
     @ le_bytes 8 (compressedSize e) @ le_bytes 8 (offset_e e)"
  by (simp add: createZip64ExtraField_def getByteArray_def)

subsection \<open>Entries without content\<close>

lemma named_name: "entry_name (named n) = trim (js n)"
  by (simp add: entry_name_def named_def)

lemma named_created:
  "created zip_env [named m, named n] constructor =
     [\<lparr>offset_e = 0, crc = 0xFFFFFFFF, compressedSize = 0, size_e = 0,
       nameBuffer = textEncoder_encode zip_env (trim (js m)), date = 0, extra = []\<rparr>,
      \<lparr>offset_e = 54 + int (length (textEncoder_encode zip_env (trim (js m)))),
       crc = 0xFFFFFFFF, compressedSize = 0, size_e = 0,
       nameBuffer = textEncoder_encode zip_env (trim (js n)), date = 0, extra = []\<rparr>]"
proof -
  have c: "chunks_of (named k) = []" for k
    by (simp add: chunks_of_def named_def)
  have d: "entry_date (named k) = 0" for k
    by (simp add: entry_date_def named_def)
  have z: "Crc32_new zip_env = 0xFFFFFFFF"
    by (simp add: zip_env_def)
  show ?thesis
    by (simp add: c d z new_entry_def named_name transform_closed length_localFileHeader
        length_dataDescriptor constructor_def)
qed

lemma central_record_name:
  "take (length (nameBuffer e)) (drop 46 (getByteArray (central_record env e))) = nameBuffer e"
  unfolding central_record_fields by (simp add: getByteArray_def)

lemma central_record_same_name:
  assumes "getByteArray (central_record env a) = getByteArray (central_record env b)"
  shows "nameBuffer a = nameBuffer b"
proof -
  from assms have "length (getByteArray (central_record env a))
      = length (getByteArray (central_record env b))" by simp
  then have l: "length (nameBuffer a) = length (nameBuffer b)"
    by (simp add: length_central_record)
  have "nameBuffer a = take (length (nameBuffer a)) (drop 46 (getByteArray (central_record env a)))"
    by (simp only: central_record_name)
  also have "\<dots> = take (length (nameBuffer b)) (drop 46 (getByteArray (central_record env b)))"
    by (simp only: assms l)
  also have "\<dots> = nameBuffer b"
    by (simp only: central_record_name)
  finally show ?thesis .
qed

lemma swapped_pair:
  assumes "map f (rev [a, b]) = map f [a, b]"
  shows "f a = f b"
proof -
  have "hd (map f (rev [a, b])) = hd (map f [a, b])"
    by (simp only: assms)
  then show ?thesis by simp
qed

subsection \<open>The claims\<close>

text \<open>
  C1.  The claim: the data descriptor has two 4-byte size fields unless the entry's
  \<open>isZip64\<close> predicate holds once its content has been relayed.  The condition at line 89
  tests the method without calling it, so the 8-byte branch is taken for every entry.  For
  the entry \<open>x.txt\<close> with content \<open>AB\<close> on a new transformer: the predicate is false for
  the finished entry, and the descriptor, the last chunk \<open>transform\<close> enqueues, is the
  signature, the checksum of \<open>AB\<close> and two 8-byte fields holding 2, which is 24 bytes
  instead of 16.
\<close>

theorem descriptor_of_small_entry:
  "\<not> IEntry_isZip64 (objects (transform zip_env x_txt constructor) ! 0)
   \<and> last (enqueued (transform zip_env x_txt constructor))
       = getByteArray [WriteInt32 0x08074b50, WriteInt32 0x30694C07,
                       WriteBigInt64 2, WriteBigInt64 2]
   \<and> length (last (enqueued (transform zip_env x_txt constructor))) = 24"
proof -
  have "\<not> IEntry_isZip64 (objects (transform zip_env x_txt constructor) ! 0)"
    unfolding x_objects by (simp add: IEntry_isZip64_def ZIP64_MAGIC_def)
  moreover have l: "last (enqueued (transform zip_env x_txt constructor))
       = getByteArray [WriteInt32 0x08074b50, WriteInt32 0x30694C07,
                       WriteBigInt64 2, WriteBigInt64 2]"
    unfolding enqueued_transform x_object dataDescriptor_fields
    by (simp add: x_crc) (simp add: zip_env_def)
  moreover have "length (last (enqueued (transform zip_env x_txt constructor))) = 24"
    unfolding l by (simp add: length_getByteArray)
  ultimately show ?thesis by blast
qed

text \<open>
  C2.  The claim: an entry whose sizes and offset are at most \<open>0xFFFFFFFF\<close> has a
  central-directory record with the literal values in its 32-bit fields and no extra
  field.  The condition at line 112 tests the method without calling it, so every entry
  is escalated.  For the same archive, whose only entry has sizes 2 and offset 0: the
  directory consists of one record whose compressed size, size and offset fields hold
  \<open>0xFFFFFFFF\<close>, whose extra length is 28, and which ends with a Zip64 extra field.
\<close>

theorem central_record_of_small_entry:
  "\<not> IEntry_isZip64 (objects (transform zip_env x_txt constructor) ! 0)
   \<and> \<not> offset_e (objects (transform zip_env x_txt constructor) ! 0) > ZIP64_MAGIC
   \<and> central_directory zip_env (transform zip_env x_txt constructor) =
       [getByteArray
          [WriteInt32 0x02014b50, WriteInt16 0x002D, WriteInt16 0x002D, WriteInt16 0x0808,
           WriteInt16 0x0000, WriteInt32 0x00210000, WriteInt32 0x30694C07,
           WriteInt32 0xFFFFFFFF, WriteInt32 0xFFFFFFFF,
           WriteInt16 5, WriteInt16 28,
           WriteInt16 0x0000, WriteInt16 0x0000, WriteInt16 0x0000, WriteInt32 0x00000000,
           WriteInt32 0xFFFFFFFF,
           WriteBytes [0x78, 0x2E, 0x74, 0x78, 0x74],
           WriteBytes (getByteArray [WriteInt16 0x0001, WriteInt16 24, WriteBigInt64 2,
                                     WriteBigInt64 2, WriteBigInt64 0])]]"
proof -
  have "\<not> IEntry_isZip64 (objects (transform zip_env x_txt constructor) ! 0)"
    unfolding x_objects by (simp add: IEntry_isZip64_def ZIP64_MAGIC_def)
  moreover have "\<not> offset_e (objects (transform zip_env x_txt constructor) ! 0) > ZIP64_MAGIC"
    unfolding x_objects by (simp add: ZIP64_MAGIC_def)
  moreover have "central_directory zip_env (transform zip_env x_txt constructor) =
       [getByteArray
          [WriteInt32 0x02014b50, WriteInt16 0x002D, WriteInt16 0x002D, WriteInt16 0x0808,
           WriteInt16 0x0000, WriteInt32 0x00210000, WriteInt32 0x30694C07,
           WriteInt32 0xFFFFFFFF, WriteInt32 0xFFFFFFFF,
           WriteInt16 5, WriteInt16 28,
           WriteInt16 0x0000, WriteInt16 0x0000, WriteInt16 0x0000, WriteInt32 0x00000000,
           WriteInt32 0xFFFFFFFF,
           WriteBytes [0x78, 0x2E, 0x74, 0x78, 0x74],
           WriteBytes (getByteArray [WriteInt16 0x0001, WriteInt16 24, WriteBigInt64 2,
                                     WriteBigInt64 2, WriteBigInt64 0])]]"
    unfolding central_directory_records x_directory central_record_fields
      createZip64ExtraField_def
    by (simp add: x_crc) (simp add: zip_env_def)
  ultimately show ?thesis by blast
qed

text \<open>
  C3.  The claim: the end-of-central-directory record carries the literal entry count,
  directory size and directory offset unless the archive-wide predicate holds, and an
  archive of one small entry has no Zip64 end record or locator.  The conditions at lines
  150 and 181 test the method without calling it.  For the same archive the predicate is
  false after the directory loop and there is one entry, yet \<open>flush\<close> then enqueues a Zip64
  end-of-central-directory record, its locator, and an end-of-central-directory record
  whose count fields hold \<open>0xFFFF\<close> and whose size and offset fields hold \<open>0xFFFFFFFF\<close>.
\<close>

theorem end_records_of_small_archive:
  "\<not> ZipTransformer_isZip64 (flush_central zip_env (transform zip_env x_txt constructor))
   \<and> length (Object_keys (entries (flush_central zip_env (transform zip_env x_txt constructor)))) = 1
   \<and> drop (length (enqueued (flush_central zip_env (transform zip_env x_txt constructor))))
           (enqueued (flush zip_env (transform zip_env x_txt constructor))) =
       [getByteArray
          [WriteInt32 0x06064b50, WriteBigInt64 44, WriteInt16 0x002D, WriteInt16 0x002D,
           WriteInt32 0, WriteInt32 0, WriteBigInt64 1, WriteBigInt64 1,
           WriteBigInt64 79, WriteBigInt64 61],
        getByteArray
          [WriteInt32 0x07064b50, WriteInt32 0, WriteBigInt64 140, WriteInt32 1],
        getByteArray
          [WriteInt32 0x06054b50, WriteInt16 0, WriteInt16 0, WriteInt16 0xFFFF,
           WriteInt16 0xFFFF, WriteInt32 0xFFFFFFFF, WriteInt32 0xFFFFFFFF, WriteInt16 0]]"
proof -
  let ?d = "flush_central zip_env (transform zip_env x_txt constructor)"
  have k: "length (Object_keys (entries ?d)) = 1"
    by (simp add: x_central length_Object_keys)
  have z: "\<not> ZipTransformer_isZip64 ?d"
    by (simp add: ZipTransformer_isZip64_def x_central length_Object_keys ZIP64_MAGIC_def
        ZIP64_MAGIC_SHORT_def)
  have r: "zip64EOCDirectoryRecord zip_env ?d =
          [WriteInt32 0x06064b50, WriteBigInt64 44, WriteInt16 0x002D, WriteInt16 0x002D,
           WriteInt32 0, WriteInt32 0, WriteBigInt64 1, WriteBigInt64 1,
           WriteBigInt64 79, WriteBigInt64 61]"
    unfolding zip64EOCDirectoryRecord_def x_central length_Object_keys
    by (simp add: zip_env_def)
  have l: "zip64EOCDirectoryLocator zip_env ?d =
          [WriteInt32 0x07064b50, WriteInt32 0, WriteBigInt64 140, WriteInt32 1]"
    unfolding zip64EOCDirectoryLocator_def x_central by (simp add: zip_env_def)
  have e: "endOfCentralDirectoryRecord zip_env (flush_zip64 zip_env ?d) =
          [WriteInt32 0x06054b50, WriteInt16 0, WriteInt16 0, WriteInt16 0xFFFF,
           WriteInt16 0xFFFF, WriteInt32 0xFFFFFFFF, WriteInt32 0xFFFFFFFF, WriteInt16 0]"
    unfolding eocd_fields by (simp add: zip_env_def)
  have "enqueued (flush zip_env (transform zip_env x_txt constructor)) =
          enqueued ?d @ [getByteArray (zip64EOCDirectoryRecord zip_env ?d),
             getByteArray (zip64EOCDirectoryLocator zip_env ?d),
             getByteArray (endOfCentralDirectoryRecord zip_env (flush_zip64 zip_env ?d))]"
    by (simp add: flush_def flush_eocd_facts(1) flush_zip64_facts(1))
  then have "drop (length (enqueued ?d))
           (enqueued (flush zip_env (transform zip_env x_txt constructor))) =
       [getByteArray (zip64EOCDirectoryRecord zip_env ?d),
             getByteArray (zip64EOCDirectoryLocator zip_env ?d),
             getByteArray (endOfCentralDirectoryRecord zip_env (flush_zip64 zip_env ?d))]"
    by simp
  then show ?thesis
    unfolding r l e using k z by blast
qed

text \<open>
  C4, as amended.  For every sequence of entries, added to a new transformer, whose
  trimmed names are pairwise distinct, none of them an array index and none
  \<open>__proto__\<close>: the central-directory records that \<open>flush\<close> enqueues are, in this order,
  the records of the entry objects in their order of creation, and the store holds
  exactly those objects.
\<close>

theorem central_directory_creation_order:
  assumes "distinct (map entry_name ents)"
    and "\<forall>ent\<in>set ents. entry_name ent \<noteq> proto_key \<and> \<not> is_array_index (entry_name ent)"
  shows "central_directory env (transforms env ents constructor)
           = map (\<lambda>e. getByteArray (central_record env e)) (created env ents constructor)
       \<and> objects (transforms env ents constructor) = created env ents constructor"
  using directory_in_creation_order [OF assms, of env]
  by (simp add: central_directory_records objects_transforms constructor_def)

text \<open>The amended statement at the entries \<open>b.txt\<close>, \<open>a.txt\<close>.\<close>

theorem central_directory_creation_order_witness:
  "distinct (map entry_name [named ''b.txt'', named ''a.txt''])
   \<and> entry_name (named ''b.txt'') \<noteq> proto_key
   \<and> \<not> is_array_index (entry_name (named ''b.txt''))
   \<and> entry_name (named ''a.txt'') \<noteq> proto_key
   \<and> \<not> is_array_index (entry_name (named ''a.txt''))
   \<and> central_directory zip_env (transforms zip_env [named ''b.txt'', named ''a.txt''] constructor)
       = map (\<lambda>e. getByteArray (central_record zip_env e))
           (created zip_env [named ''b.txt'', named ''a.txt''] constructor)"
proof -
  have n: "entry_name (named ''b.txt'') = js ''b.txt''" "entry_name (named ''a.txt'') = js ''a.txt''"
    by (simp_all add: named_name trim_def js_def is_whitespace_def)
  have h1: "distinct (map entry_name [named ''b.txt'', named ''a.txt''])"
    by (simp add: n) (simp add: js_def)
  have h2: "\<forall>ent\<in>set [named ''b.txt'', named ''a.txt''].
          entry_name ent \<noteq> proto_key \<and> \<not> is_array_index (entry_name ent)"
    by (simp add: n) (simp add: js_def proto_key_def is_array_index_def is_digit_def)
  from central_directory_creation_order [OF h1 h2, of zip_env] h1 h2 show ?thesis
    by simp
qed

text \<open>
  C4 as stated, for every choice of names, fails in three ways.  Two entries named \<open>a\<close>:
  one record for two entries.  Entries named \<open>2\<close> then \<open>1\<close>: \<open>Object.keys\<close> lists \<open>1\<close>
  first, so the first record describes the second entry.  An entry named \<open>__proto__\<close>: no
  record at all.
\<close>

theorem central_directory_creation_order_counterexample:
  "central_directory zip_env (transforms zip_env [named ''a'', named ''a''] constructor)
     \<noteq> map (\<lambda>e. getByteArray (central_record zip_env e))
           (created zip_env [named ''a'', named ''a''] constructor)
   \<and> central_directory zip_env (transforms zip_env [named ''2'', named ''1''] constructor)
     \<noteq> map (\<lambda>e. getByteArray (central_record zip_env e))
           (created zip_env [named ''2'', named ''1''] constructor)
   \<and> central_directory zip_env (transforms zip_env [named ''__proto__''] constructor)
     \<noteq> map (\<lambda>e. getByteArray (central_record zip_env e))
           (created zip_env [named ''__proto__''] constructor)"
proof -
  have e1: "entries (transforms zip_env [named ''a'', named ''a''] constructor) = [(js ''a'', 1)]"
    by (simp add: run_simps)
  have e2: "entries (transforms zip_env [named ''2'', named ''1''] constructor)
              = [(js ''2'', 0), (js ''1'', 1)]"
    by (simp add: run_simps)
  have e3: "entries (transforms zip_env [named ''__proto__''] constructor) = []"
    by (simp add: run_simps)
  have l1: "length (central_directory zip_env (transforms zip_env [named ''a'', named ''a''] constructor)) = 1"
    unfolding central_directory_records directory_entries_def e1
    by (simp add: Object_keys_def is_array_index_def is_digit_def js_def obj_get_def)
  have 1: "central_directory zip_env (transforms zip_env [named ''a'', named ''a''] constructor)
     \<noteq> map (\<lambda>e. getByteArray (central_record zip_env e))
           (created zip_env [named ''a'', named ''a''] constructor)"
  proof
    assume "central_directory zip_env (transforms zip_env [named ''a'', named ''a''] constructor)
     = map (\<lambda>e. getByteArray (central_record zip_env e))
           (created zip_env [named ''a'', named ''a''] constructor)"
    then have "length (central_directory zip_env
                 (transforms zip_env [named ''a'', named ''a''] constructor)) = 2"
      by (simp only: length_map length_created) simp
    with l1 show False by simp
  qed
  have k2: "Object_keys [(js ''2'', 0::nat), (js ''1'', 1)] = [js ''1'', js ''2'']"
    by (simp add: Object_keys_def is_array_index_def is_digit_def decimal_def js_def)
  have o2: "objects (transforms zip_env [named ''2'', named ''1''] constructor)
        = created zip_env [named ''2'', named ''1''] constructor"
    unfolding objects_transforms by (simp add: constructor_def)
  have n2: "textEncoder_encode zip_env (trim (js ''2'')) = [0x32]"
     "textEncoder_encode zip_env (trim (js ''1'')) = [0x31]"
    by (simp_all add: zip_env_def utf8_def is_high_surrogate_def is_low_surrogate_def js_def
        trim_def is_whitespace_def)
  have d2: "directory_entries (transforms zip_env [named ''2'', named ''1''] constructor)
     = rev (created zip_env [named ''2'', named ''1''] constructor)"
    unfolding directory_entries_def e2 k2 o2 named_created
    by (simp add: obj_get_def js_def)
  have 2: "central_directory zip_env (transforms zip_env [named ''2'', named ''1''] constructor)
     \<noteq> map (\<lambda>e. getByteArray (central_record zip_env e))
           (created zip_env [named ''2'', named ''1''] constructor)"
  proof
    assume eq: "central_directory zip_env (transforms zip_env [named ''2'', named ''1''] constructor)
     = map (\<lambda>e. getByteArray (central_record zip_env e))
           (created zip_env [named ''2'', named ''1''] constructor)"
    obtain a b where c: "created zip_env [named ''2'', named ''1''] constructor = [a, b]"
      and a: "nameBuffer a = textEncoder_encode zip_env (trim (js ''2''))"
      and b: "nameBuffer b = textEncoder_encode zip_env (trim (js ''1''))"
      using named_created [of "''2''" "''1''"] by simp
    from eq have "getByteArray (central_record zip_env a) = getByteArray (central_record zip_env b)"
      unfolding central_directory_records d2 c by (rule swapped_pair)
    then have "nameBuffer a = nameBuffer b"
      by (rule central_record_same_name)
    then show False
      unfolding a b n2 by simp
  qed
  have l3: "length (central_directory zip_env (transforms zip_env [named ''__proto__''] constructor)) = 0"
    unfolding central_directory_records directory_entries_def e3
    by (simp add: Object_keys_def)
  have 3: "central_directory zip_env (transforms zip_env [named ''__proto__''] constructor)
     \<noteq> map (\<lambda>e. getByteArray (central_record zip_env e))
           (created zip_env [named ''__proto__''] constructor)"
  proof
    assume "central_directory zip_env (transforms zip_env [named ''__proto__''] constructor)
     = map (\<lambda>e. getByteArray (central_record zip_env e))
           (created zip_env [named ''__proto__''] constructor)"
    then have "length (central_directory zip_env
                 (transforms zip_env [named ''__proto__''] constructor)) = 1"
      by (simp only: length_map length_created) simp
    with l3 show False by simp
  qed
  show ?thesis using 1 2 3 by blast
qed

text \<open>
  C5, as amended.  Let two entries \<open>e1\<close> and, later, \<open>e2\<close> with the same trimmed name \<open>n\<close>,
  not \<open>__proto__\<close>, be added to a new transformer, among any other entries, \<open>e2\<close> being
  the last one added under that name.  Then the local file header, the content chunks
  and the data descriptor of \<open>e1\<close> are in the output after \<open>flush\<close>, at the place where
  they were enqueued; \<open>Object.keys\<close> lists \<open>n\<close> once, the lookup structure maps it to the
  object created for \<open>e2\<close>, and the directory loop enqueues one record for each key, so
  one record for \<open>n\<close>, which describes \<open>e2\<close>; the entry count that \<open>flush\<close> computes, the
  number of keys, is the number of distinct trimmed names other than \<open>__proto__\<close>, which
  is less than the number of entries added.
\<close>

theorem duplicate_name_overwrites:
  fixes env :: "'c env" and pre mid post :: "entry_in list" and e1 e2 :: entry_in
  assumes "entry_name e1 = n" and "entry_name e2 = n" and "n \<noteq> proto_key"
    and "n \<notin> entry_name ` set post"
  defines "ents \<equiv> pre @ e1 # mid @ e2 # post"
  defines "p \<equiv> transforms env pre constructor"
  defines "q \<equiv> transforms env (pre @ e1 # mid) constructor"
  defines "s \<equiv> transforms env ents constructor"
  shows "(\<exists>rest. enqueued (flush env s) =
            enqueued p
            @ [getByteArray (localFileHeader env (new_entry env e1 p))]
            @ chunks_of e1
            @ [getByteArray (dataDescriptor env (absorb env (chunks_of e1) (new_entry env e1 p)))]
            @ rest)
       \<and> filter (\<lambda>k. k = n) (Object_keys (entries s)) = [n]
       \<and> obj_get (entries s) n = Some (length (objects q))
       \<and> objects s ! length (objects q) = absorb env (chunks_of e2) (new_entry env e2 q)
       \<and> central_directory env s =
            map (\<lambda>e. getByteArray (central_record env e)) (directory_entries s)
       \<and> length (Object_keys (entries s)) = card (entry_name ` set ents - {proto_key})
       \<and> length (Object_keys (entries s)) < length ents"
proof -
  have s1: "s = transforms env (mid @ e2 # post) (transform env e1 p)"
    by (simp add: s_def ents_def p_def transforms_append)
  have s2: "s = transforms env post (transform env e2 q)"
    by (simp add: s_def ents_def q_def transforms_append)
  obtain r where r: "enqueued s = enqueued (transform env e1 p) @ r"
    unfolding s1 using enqueued_transforms_grows by blast
  have a: "\<exists>rest. enqueued (flush env s) =
            enqueued p
            @ [getByteArray (localFileHeader env (new_entry env e1 p))]
            @ chunks_of e1
            @ [getByteArray (dataDescriptor env (absorb env (chunks_of e1) (new_entry env e1 p)))]
            @ rest"
    by (simp add: enqueued_flush r enqueued_transform)
  have d: "distinct (Object_keys (entries s))"
    unfolding s_def
    by (rule distinct_Object_keys, rule distinct_keys_transforms) (simp add: constructor_def)
  have "n \<in> fst ` set (entries s)"
    using assms(1,3) by (simp add: s_def ents_def keys_transforms)
  then have b: "filter (\<lambda>k. k = n) (Object_keys (entries s)) = [n]"
    using d by (simp add: filter_eq_single set_Object_keys)
  have c: "obj_get (entries s) n = Some (length (objects q))"
    unfolding s2 using assms(2,3,4)
    by (simp add: lookup_transforms_other lookup_transform)
  have o: "objects s ! length (objects q) = absorb env (chunks_of e2) (new_entry env e2 q)"
    unfolding s2 by (simp add: objects_transforms objects_transform)
  have k: "length (Object_keys (entries s)) = card (entry_name ` set ents - {proto_key})"
    unfolding s_def by (rule key_count)
  have "\<not> distinct (map entry_name ents)"
    using assms(1,2) by (simp add: ents_def)
  then have "card (set (map entry_name ents)) < length (map entry_name ents)"
    using card_distinct [of "map entry_name ents"] card_length [of "map entry_name ents"]
    by linarith
  moreover have "card (entry_name ` set ents - {proto_key}) \<le> card (set (map entry_name ents))"
    by (simp add: card_Diff1_le)
  ultimately have lt: "length (Object_keys (entries s)) < length ents"
    using k by simp
  show ?thesis
    using a b c o k lt central_directory_records by blast
qed


text \<open>
  The amended statement at the entries \<open>a\<close>, \<open>b\<close>, \<open>a\<close> with surrounding blanks, \<open>c\<close>.
\<close>

theorem duplicate_name_overwrites_witness:
  "entry_name (named ''a'') = js ''a'' \<and> entry_name (named '' a '') = js ''a''
   \<and> js ''a'' \<noteq> proto_key \<and> js ''a'' \<notin> entry_name ` set [named ''c'']
   \<and> filter (\<lambda>k. k = js ''a'')
        (Object_keys (entries (transforms zip_env
           ([] @ named ''a'' # [named ''b''] @ named '' a '' # [named ''c'']) constructor)))
       = [js ''a'']
   \<and> obj_get (entries (transforms zip_env
           ([] @ named ''a'' # [named ''b''] @ named '' a '' # [named ''c'']) constructor)) (js ''a'')
       = Some (length (objects (transforms zip_env ([] @ named ''a'' # [named ''b'']) constructor)))
   \<and> length (Object_keys (entries (transforms zip_env
           ([] @ named ''a'' # [named ''b''] @ named '' a '' # [named ''c'']) constructor)))
       < length ([] @ named ''a'' # [named ''b''] @ named '' a '' # [named ''c''])"
proof -
  have h1: "entry_name (named ''a'') = js ''a''"
    by (simp add: named_name trim_def js_def is_whitespace_def)
  have h2: "entry_name (named '' a '') = js ''a''"
    by (simp add: named_name trim_def js_def is_whitespace_def)
  have h3: "js ''a'' \<noteq> proto_key"
    by (simp add: js_def proto_key_def)
  have h4: "js ''a'' \<notin> entry_name ` set [named ''c'']"
    by (simp add: named_name trim_def js_def is_whitespace_def)
  from duplicate_name_overwrites [OF h1 h2 h3 h4, of zip_env "[]" "[named ''b'']"] h1 h2 h3 h4
  show ?thesis by blast
qed

text \<open>
  C5 as stated fails in two ways.  After two entries named \<open>a\<close> the count fields of the
  end-of-central-directory record hold \<open>0xFFFF\<close>, not 1.  After two entries named
  \<open>__proto__\<close> the directory is empty: no record is emitted for that name.
\<close>

theorem duplicate_name_overwrites_counterexample:
  "last (enqueued (flush zip_env (transforms zip_env [named ''a'', named ''a''] constructor)))
     = getByteArray
         [WriteInt32 0x06054b50, WriteInt16 0, WriteInt16 0, WriteInt16 0xFFFF,
          WriteInt16 0xFFFF, WriteInt32 0xFFFFFFFF, WriteInt32 0xFFFFFFFF, WriteInt16 0]
   \<and> central_directory zip_env
         (transforms zip_env [named ''__proto__'', named ''__proto__''] constructor) = []"
proof -
  have "last (enqueued (flush zip_env (transforms zip_env [named ''a'', named ''a''] constructor)))
     = getByteArray
         [WriteInt32 0x06054b50, WriteInt16 0, WriteInt16 0, WriteInt16 0xFFFF,
          WriteInt16 0xFFFF, WriteInt32 0xFFFFFFFF, WriteInt32 0xFFFFFFFF, WriteInt16 0]"
    unfolding flush_def flush_eocd_facts(1) eocd_fields by (simp add: zip_env_def)
  moreover have "entries (transforms zip_env [named ''__proto__'', named ''__proto__''] constructor) = []"
    by (simp add: run_simps)
  then have "central_directory zip_env
         (transforms zip_env [named ''__proto__'', named ''__proto__''] constructor) = []"
    unfolding central_directory_records directory_entries_def
    by (simp add: Object_keys_def)
  ultimately show ?thesis by blast
qed

text \<open>
  C6.  Without a content source the relay step leaves the state as it is.  With a
  source that yields the chunks \<open>chunks\<close>, after the header of a new entry at address
  \<open>a\<close>: the chunks are appended to the output unchanged and in order; the checksum
  accumulator of the entry has been fed every chunk in order, starting from a new
  accumulator; \<open>compressedSize\<close> and \<open>size\<close> are both the total length of the content;
  the cursor, the lookup structure and the older entry objects are untouched.
\<close>

theorem content_relay:
  fixes env :: "'c env" and this st :: "'c ZipTransformer" and ent :: entry_in
    and chunks :: "byte list list"
  defines "a \<equiv> length (objects this)"
  defines "h \<equiv> write_header env a (define_entry env ent this)"
  defines "r \<equiv> relay env a (Some chunks) h"
  shows "relay env b None st = st
       \<and> enqueued r = enqueued h @ chunks
       \<and> crc (objects r ! a) = foldl (Crc32_append env) (Crc32_new env) chunks
       \<and> compressedSize (objects r ! a) = int (length (concat chunks))
       \<and> size_e (objects r ! a) = int (length (concat chunks))
       \<and> offset r = offset h \<and> entries r = entries h
       \<and> take a (objects r) = objects this"
proof -
  have o: "objects h = objects this @ [new_entry env ent this]"
    by (simp add: h_def write_header_def define_entry_def Let_def)
  show ?thesis
    by (simp add: r_def relay_def relay_loop_closed o a_def absorb_def new_entry_def)
qed

text \<open>
  C7.  For every state in which \<open>flush\<close> is called, \<open>centralOffset\<close> is the cursor at the
  start of \<open>flush\<close>, and \<open>centralSize\<close> is the sum of the lengths of the central-directory
  records that the loop enqueued, which is the cursor after the loop minus
  \<open>centralOffset\<close>.
\<close>

theorem central_directory_extent:
  "centralOffset (flush env this) = offset this
   \<and> centralSize (flush env this) = (\<Sum>record\<leftarrow>central_directory env this. int (length record))
   \<and> centralSize (flush env this) = offset (flush_central env this) - centralOffset (flush env this)"
  by (simp add: flush_def flush_eocd_facts flush_zip64_facts flush_central_facts
      central_directory_records comp_def)

text \<open>
  C8.  For every entry object whose sizes or whose offset exceed \<open>0xFFFFFFFF\<close>, the
  central-directory record built for it holds \<open>0xFFFFFFFF\<close> in the 32-bit compressed size,
  size and offset fields and an extra length of 28, and ends with the Zip64 extra field:
  the Zip64 identifier, the 16-bit length 24, then size, compressed size and offset in 8
  bytes each, little-endian.  When the object is one of those the directory loop visits,
  the bytes of that record are among the chunks the loop enqueues.
\<close>

theorem zip64_central_record:
  assumes "IEntry_isZip64 e \<or> offset_e e > ZIP64_MAGIC"
  shows "central_record env e =
          [WriteInt32 (SIG_CFH env), WriteInt16 0x002D, WriteInt16 0x002D, WriteInt16 0x0808,
           WriteInt16 0x0000, WriteInt32 (getDateTimeDOS env (date e)),
           WriteInt32 (Crc32_get env (crc e)),
           WriteInt32 0xFFFFFFFF, WriteInt32 0xFFFFFFFF,
           WriteInt16 (int (length (nameBuffer e))), WriteInt16 28,
           WriteInt16 0x0000, WriteInt16 0x0000, WriteInt16 0x0000, WriteInt32 0x00000000,
           WriteInt32 0xFFFFFFFF,
           WriteBytes (nameBuffer e),
           WriteBytes (le_bytes 2 (ZIP64_EXTRA_ID env) @ le_bytes 2 24 @ le_bytes 8 (size_e e)
                       @ le_bytes 8 (compressedSize e) @ le_bytes 8 (offset_e e))]
       \<and> (e \<in> set (directory_entries this) \<longrightarrow>
            getByteArray (central_record env e) \<in> set (central_directory env this))"
proof -
  have "e \<in> set (directory_entries this) \<longrightarrow>
            getByteArray (central_record env e) \<in> set (central_directory env this)"
    by (simp add: central_directory_records)
  then show ?thesis
    unfolding central_record_fields zip64_extra_bytes by simp
qed

text \<open>The statement at an entry object of 4 GiB.\<close>

theorem zip64_central_record_witness:
  "(IEntry_isZip64 big_entry \<or> offset_e big_entry > ZIP64_MAGIC)
   \<and> big_entry \<in> set (directory_entries big_state)
   \<and> getByteArray (central_record zip_env big_entry) \<in> set (central_directory zip_env big_state)
   \<and> central_record zip_env big_entry =
          [WriteInt32 0x02014b50, WriteInt16 0x002D, WriteInt16 0x002D, WriteInt16 0x0808,
           WriteInt16 0x0000, WriteInt32 0x00210000, WriteInt32 0xFFFFFFFF,
           WriteInt32 0xFFFFFFFF, WriteInt32 0xFFFFFFFF,
           WriteInt16 1, WriteInt16 28,
           WriteInt16 0x0000, WriteInt16 0x0000, WriteInt16 0x0000, WriteInt32 0x00000000,
           WriteInt32 0xFFFFFFFF,
           WriteBytes [0x61],
           WriteBytes [0x01, 0x00, 0x18, 0x00,
                       0x00, 0x00, 0x00, 0x00, 0x01, 0x00, 0x00, 0x00,
                       0x00, 0x00, 0x00, 0x00, 0x01, 0x00, 0x00, 0x00,
                       0x00, 0x00, 0x00, 0x00, 0x00, 0x00, 0x00, 0x00]]"
proof -
  have h: "IEntry_isZip64 big_entry \<or> offset_e big_entry > ZIP64_MAGIC"
    by (simp add: IEntry_isZip64_def big_entry_def ZIP64_MAGIC_def)
  have m: "big_entry \<in> set (directory_entries big_state)"
    by (simp add: big_state_def keys_simps js_def obj_get_def)
  have b: "le_bytes 2 (ZIP64_EXTRA_ID zip_env) @ le_bytes 2 24 @ le_bytes 8 (size_e big_entry)
                       @ le_bytes 8 (compressedSize big_entry) @ le_bytes 8 (offset_e big_entry)
       = [0x01, 0x00, 0x18, 0x00,
                       0x00, 0x00, 0x00, 0x00, 0x01, 0x00, 0x00, 0x00,
                       0x00, 0x00, 0x00, 0x00, 0x01, 0x00, 0x00, 0x00,
                       0x00, 0x00, 0x00, 0x00, 0x00, 0x00, 0x00, 0x00]"
    by (simp add: big_entry_def zip_env_def le_bytes_numeral)
  have s: "SIG_CFH zip_env = 0x02014b50" "getDateTimeDOS zip_env (date big_entry) = 0x00210000"
    "Crc32_get zip_env (crc big_entry) = 0xFFFFFFFF" "nameBuffer big_entry = [0x61]"
    by (simp_all add: big_entry_def zip_env_def)
  from zip64_central_record [OF h, of zip_env big_state] h m show ?thesis
    unfolding b s by auto
qed

text \<open>
  C9.  For every entry and every state, the local file header that \<open>transform\<close>
  enqueues first consists, in this order, of the local-file-header signature (4 bytes,
  little-endian), version needed \<open>0x002D\<close>, flags \<open>0x0808\<close>, method \<open>0\<close>, the 4-byte DOS
  date and time, three 4-byte zero fields, the 2-byte length of the name, a 2-byte extra
  length of \<open>0\<close>, and the encoded bytes of the trimmed name.  Writing it advances the
  cursor by exactly the length of the header, and the offset recorded in the new entry is
  the cursor before the header was written.
\<close>

theorem local_file_header_layout:
  fixes env :: "'c env" and this :: "'c ZipTransformer" and ent :: entry_in
  defines "a \<equiv> length (objects this)"
  defines "nm \<equiv> textEncoder_encode env (entry_name ent)"
  defines "hdr \<equiv> le_bytes 4 (SIG_LFH env) @ [0x2D, 0x00] @ [0x08, 0x08] @ [0x00, 0x00]
                 @ le_bytes 4 (getDateTimeDOS env (entry_date ent))
                 @ [0x00, 0x00, 0x00, 0x00] @ [0x00, 0x00, 0x00, 0x00] @ [0x00, 0x00, 0x00, 0x00]
                 @ le_bytes 2 (int (length nm)) @ [0x00, 0x00] @ nm"
  shows "getByteArray (localFileHeader env (new_entry env ent this)) = hdr
       \<and> enqueued (write_header env a (define_entry env ent this)) = enqueued this @ [hdr]
       \<and> offset (write_header env a (define_entry env ent this)) = offset this + int (length hdr)
       \<and> offset_e (objects (define_entry env ent this) ! a) = offset this
       \<and> take (Suc (length (enqueued this))) (enqueued (transform env ent this))
           = enqueued this @ [hdr]
       \<and> offset_e (objects (transform env ent this) ! a) = offset this"
proof -
  have l: "le_bytes 2 0x002D = [0x2D, 0x00]" "le_bytes 2 0x0808 = [0x08, 0x08]"
    "le_bytes 2 0 = [0x00, 0x00]" "le_bytes 4 0 = [0x00, 0x00, 0x00, 0x00]"
    by (simp_all add: le_bytes_numeral)
  have h: "getByteArray (localFileHeader env (new_entry env ent this)) = hdr"
    by (simp add: getByteArray_def localFileHeader_def new_entry_def hdr_def nm_def l)
  have o: "objects (define_entry env ent this) ! a = new_entry env ent this"
    by (simp add: define_entry_def Let_def a_def)
  have e: "enqueued (define_entry env ent this) = enqueued this"
    "offset (define_entry env ent this) = offset this"
    by (simp_all add: define_entry_def Let_def)
  have w: "enqueued (write_header env a (define_entry env ent this)) = enqueued this @ [hdr]"
    by (simp add: write_header_def Let_def o e h)
  have c: "offset (write_header env a (define_entry env ent this)) = offset this + int (length hdr)"
    by (simp add: write_header_def Let_def o e h)
  have r: "offset_e (objects (define_entry env ent this) ! a) = offset this"
    by (simp add: o) (simp add: new_entry_def)
  have t: "take (Suc (length (enqueued this))) (enqueued (transform env ent this))
           = enqueued this @ [hdr]"
    by (simp add: enqueued_transform h)
  have f: "offset_e (objects (transform env ent this) ! a) = offset this"
    by (simp add: objects_transform a_def absorb_def new_entry_def)
  show ?thesis
    using h w c r t f by blast
qed

text \<open>
  C10.  After any number of completed \<open>transform\<close> calls on a new transformer, and
  after \<open>flush\<close>, the cursor \<open>offset\<close> equals the number of bytes enqueued so far.  From
  any state, \<open>transform\<close> and \<open>flush\<close> advance the cursor by exactly the bytes they
  enqueue, and never move it back.  In \<open>transform\<close>, the advance after the header is the
  entry's \<open>size\<close> plus the length of the data descriptor, and that \<open>size\<close> is the number
  of content bytes relayed.
\<close>

theorem cursor_counts_emitted_bytes:
  "offset (transforms env ents constructor) = emitted (transforms env ents constructor)
   \<and> offset (flush env (transforms env ents constructor))
       = emitted (flush env (transforms env ents constructor))
   \<and> offset (transform env ent this) - offset this
       = emitted (transform env ent this) - emitted this
   \<and> offset (flush env this) - offset this = emitted (flush env this) - emitted this
   \<and> offset this \<le> offset (transform env ent this)
   \<and> offset this \<le> offset (flush env this)
   \<and> offset (transform env ent this)
       = offset (write_header env (length (objects this)) (define_entry env ent this))
         + size_e (objects (transform env ent this) ! length (objects this))
         + int (length (last (enqueued (transform env ent this))))
   \<and> size_e (objects (transform env ent this) ! length (objects this))
       = int (length (concat (chunks_of ent)))"
proof -
  have c: "offset (constructor :: 'a ZipTransformer) - emitted (constructor :: 'a ZipTransformer) = 0"
    by (simp add: constructor_def emitted_def)
  have 1: "offset (transforms env ents constructor) = emitted (transforms env ents constructor)"
    using transforms_balance [of env ents constructor] c by simp
  have 2: "offset (flush env (transforms env ents constructor))
       = emitted (flush env (transforms env ents constructor))"
    using flush_balance [of env "transforms env ents constructor"] 1 by simp
  have 3: "offset (transform env ent this) - offset this
       = emitted (transform env ent this) - emitted this"
    using transform_balance [of env ent this] by simp
  have 4: "offset (flush env this) - offset this = emitted (flush env this) - emitted this"
    using flush_balance [of env this] by simp
  have 5: "offset (transform env ent this)
       = offset (write_header env (length (objects this)) (define_entry env ent this))
         + size_e (objects (transform env ent this) ! length (objects this))
         + int (length (last (enqueued (transform env ent this))))"
    by (simp add: enqueued_transform objects_transform write_header_def define_entry_def Let_def
        transform_closed absorb_def new_entry_def)
  have 6: "size_e (objects (transform env ent this) ! length (objects this))
       = int (length (concat (chunks_of ent)))"
    by (simp add: objects_transform absorb_def new_entry_def)
  show ?thesis
    using 1 2 3 4 5 6 transform_mono [of this env ent] flush_mono [of this env] by blast
qed

end
